theory Spec2Isabelle
  imports Main
begin

section \<open>Characters and slices\<close>

text \<open>
  The script scans text lines character by character.  A line is modelled as a
  \<^typ>\<open>string\<close>; the four characters with a role in the scan, and the newline the
  script appends, are all ASCII.
\<close>

abbreviation backslash :: char where
  "backslash \<equiv> CHR 0x5C"

abbreviation quote :: char where
  "quote \<equiv> CHR 0x27"

abbreviation lparen :: char where
  "lparen \<equiv> CHR 0x28"

abbreviation rparen :: char where
  "rparen \<equiv> CHR 0x29"

abbreviation newline :: char where
  "newline \<equiv> CHR 0x0A"

text \<open>
  Python's \<^verbatim>\<open>line[a:b]\<close> for indices \<open>0 \<le> a\<close>, \<open>0 \<le> b\<close>: the characters from
  \<open>a\<close> up to, not including, \<open>b\<close>, cut at the end of the line, and empty when
  \<open>b \<le> a\<close>.  \<^verbatim>\<open>line[a:]\<close> is \<^term>\<open>drop a line\<close> and \<^verbatim>\<open>line[:b]\<close> is
  \<^term>\<open>take b line\<close>.
\<close>

definition slice :: "string \<Rightarrow> nat \<Rightarrow> nat \<Rightarrow> string" where
  "slice line a b = take (b - a) (drop a line)"

text \<open>Python's \<^verbatim>\<open>str(n)\<close> for a non-negative integer: its decimal digits.\<close>

definition digit :: "nat \<Rightarrow> char" where
  "digit d = char_of (48 + d)"

fun str :: "nat \<Rightarrow> string" where
  "str n = (if n < 10 then [digit n] else str (n div 10) @ [digit (n mod 10)])"

declare str.simps [simp del]

section \<open>The state carried between lines\<close>

text \<open>
  Class \<^verbatim>\<open>State\<close>: whether a quote opened in an earlier line is still open, and the
  number of brackets opened in earlier lines.  Python integers are unbounded.
\<close>

record State =
  in_quotes :: bool
  brackets :: int

section \<open>\<^verbatim>\<open>process_line\<close>\<close>

text \<open>
  The local variables of \<^verbatim>\<open>process_line\<close>: \<open>brackets\<close> and \<open>in_quotes\<close> (the fields
  inherited from \<^typ>\<open>State\<close>), \<open>escaped\<close>, \<open>processed_line\<close> and \<open>start\<close>.  The field
  \<open>printed\<close> collects the arguments of the calls of \<^verbatim>\<open>print\<close>, in order.
\<close>

record locals = State +
  escaped :: bool
  processed_line :: "string list"
  start :: nat
  printed :: "string list"

definition warning :: string where
  "warning = ''Warning: closing '' @ [quote, rparen, quote] @ '' without opening ''
     @ [quote, lparen, quote] @ ''!''"

text \<open>
  The body of the loop \<^verbatim>\<open>for i in range(len(line))\<close>, for one index \<open>i\<close>.  The
  branches are those of the \<^verbatim>\<open>if\<close>/\<^verbatim>\<open>elif\<close> chain, in the order of the source.
\<close>

definition loop_body :: "string \<Rightarrow> nat \<Rightarrow> locals \<Rightarrow> locals" where
  "loop_body line i v =
    (if line ! i = backslash then v\<lparr>escaped := \<not> escaped v\<rparr>
     else if line ! i = quote then
       (if escaped v then v\<lparr>escaped := False\<rparr>
        else v\<lparr>in_quotes := \<not> in_quotes v\<rparr>)
     else if line ! i = lparen then
       (let v1 =
          (if \<not> in_quotes v then
             (let v2 =
                (if brackets v = 0 then
                   (let v3 =
                      (if i > 0 then
                         v\<lparr>processed_line :=
                             processed_line v @ [slice line (start v) i @ [newline]]\<rparr>
                       else v)
                    in v3\<lparr>start := i\<rparr>)
                 else v)
              in v2\<lparr>brackets := brackets v2 + 1\<rparr>)
           else v)
        in if escaped v1 then v1\<lparr>escaped := False\<rparr> else v1)
     else if line ! i = rparen then
       (let v1 =
          (if \<not> in_quotes v then
             (if brackets v > 0 then v\<lparr>brackets := brackets v - 1\<rparr>
              else v\<lparr>printed := printed v @ [warning, line]\<rparr>)
           else v)
        in if escaped v1 then v1\<lparr>escaped := False\<rparr> else v1)
     else if escaped v then v\<lparr>escaped := False\<rparr>
     else v)"

text \<open>The local variables before the loop.\<close>

definition init_locals :: "State \<Rightarrow> locals" where
  "init_locals previous_state =
    \<lparr>in_quotes = in_quotes previous_state, brackets = brackets previous_state,
     escaped = False, processed_line = [], start = 0, printed = []\<rparr>"

text \<open>The local variables after the iterations for the indices \<open>0, \<dots>, n - 1\<close>.\<close>

definition scan :: "string \<Rightarrow> State \<Rightarrow> nat \<Rightarrow> locals" where
  "scan line previous_state n =
    foldl (\<lambda>v i. loop_body line i v) (init_locals previous_state) [0..<n]"

text \<open>
  \<^verbatim>\<open>process_line(line, previous_state)\<close>: the returned pair of the list of fragments
  and the new state, together with what the call printed.
\<close>

definition process_line :: "string \<Rightarrow> State \<Rightarrow> string list \<times> State \<times> string list" where
  "process_line line previous_state =
    (let v = scan line previous_state (length line)
     in (processed_line v @ [drop (start v) line],
         \<lparr>in_quotes = in_quotes v, brackets = brackets v\<rparr>,
         printed v))"

section \<open>\<^verbatim>\<open>process_file\<close>\<close>

text \<open>
  The variables of the loop over the lines in \<^verbatim>\<open>process_file\<close>; \<open>console\<close> collects
  what is printed.
\<close>

record file_vars =
  line_number :: nat
  output_lines :: "string list"
  temp_state :: State
  console :: "string list"

text \<open>
  The body of the loop \<^verbatim>\<open>for line in lines\<close>; \<open>lines_count\<close> is the string
  \<^verbatim>\<open>str(len(lines))\<close>.
\<close>

definition file_body :: "string \<Rightarrow> file_vars \<Rightarrow> string \<Rightarrow> file_vars" where
  "file_body lines_count w line =
    (let w1 = w\<lparr>line_number := line_number w + 1\<rparr>;
         w2 = (if line_number w1 mod 10000 = 0 then
                 w1\<lparr>console := console w1 @
                   [''Processing line '' @ str (line_number w1) @ ''/'' @ lines_count]\<rparr>
               else w1)
     in if length line = 1 then w2\<lparr>output_lines := output_lines w2 @ [line]\<rparr>
        else if take 2 line = ''--'' then w2\<lparr>output_lines := output_lines w2 @ [line]\<rparr>
        else (case process_line line (temp_state w2) of
                (processed, current_state, pr) \<Rightarrow>
                  w2\<lparr>output_lines := output_lines w2 @ processed,
                     temp_state := current_state,
                     console := console w2 @ pr\<rparr>))"

definition file_loop :: "string \<Rightarrow> file_vars \<Rightarrow> string list \<Rightarrow> file_vars" where
  "file_loop lines_count w lines = foldl (file_body lines_count) w lines"

text \<open>
  \<^verbatim>\<open>process_file\<close>, given the list \<open>lines\<close> that \<^verbatim>\<open>f.readlines()\<close> returned for the input
  file: the strings written to the output file, in order, the state after the last line,
  and what was printed.
\<close>

definition process_file ::
  "string \<Rightarrow> string \<Rightarrow> string list \<Rightarrow> string list \<times> State \<times> string list" where
  "process_file file_name output_file_name lines =
    (let w0 = \<lparr>line_number = 0, output_lines = [],
               temp_state = \<lparr>in_quotes = False, brackets = 0\<rparr>,
               console = [''Processing file: '' @ file_name @ ''...'']\<rparr>;
         w = file_loop (str (length lines)) w0 lines
     in (output_lines w, temp_state w,
         console w @
           [''Done! Input lines: '' @ str (length lines) @ '', output lines: ''
              @ str (length (output_lines w)),
            ''Saving file...'',
            ''Done. Output file '' @ output_file_name @ '' ready.'']))"

section \<open>The loop of \<^verbatim>\<open>process_line\<close>, one index at a time\<close>


lemma scan_0: "scan line st 0 = init_locals st"
  by (simp add: scan_def)

lemma scan_Suc: "scan line st (Suc n) = loop_body line n (scan line st n)"
  by (simp add: scan_def)

lemma loop_body_processed_line:
  "processed_line (loop_body line i v) =
     (if line ! i = lparen \<and> \<not> in_quotes v \<and> brackets v = 0 \<and> 0 < i
      then processed_line v @ [slice line (start v) i @ [newline]]
      else processed_line v)"
  by (simp add: loop_body_def Let_def)


lemma loop_body_start:
  "start (loop_body line i v) =
     (if line ! i = lparen \<and> \<not> in_quotes v \<and> brackets v = 0 then i else start v)"
  by (simp add: loop_body_def Let_def)

lemma loop_body_brackets:
  "brackets (loop_body line i v) =
     (if line ! i = lparen \<and> \<not> in_quotes v then brackets v + 1
      else if line ! i = rparen \<and> \<not> in_quotes v \<and> 0 < brackets v then brackets v - 1
      else brackets v)"
  by (simp add: loop_body_def Let_def)

lemma loop_body_printed:
  "printed (loop_body line i v) =
     (if line ! i = rparen \<and> \<not> in_quotes v \<and> \<not> 0 < brackets v
      then printed v @ [warning, line]
      else printed v)"
  by (simp add: loop_body_def Let_def)

lemma slice_extend:
  assumes "a \<le> n"
  shows "take a line @ slice line a n = take n line"
proof -
  have "take n line = take (a + (n - a)) line"
    using assms by simp
  also have "\<dots> = take a line @ take (n - a) (drop a line)"
    by (rule take_add)
  finally show ?thesis
    by (simp add: slice_def)
qed

lemma slice_nonempty: "a < n \<Longrightarrow> n < length line \<Longrightarrow> slice line a n \<noteq> []"
  by (simp add: slice_def)


lemma scan_pieces:
  "n \<le> length line \<Longrightarrow>
   \<exists>ps. processed_line (scan line st n) = map (\<lambda>p. p @ [newline]) ps
      \<and> concat ps = take (start (scan line st n)) line
      \<and> (\<forall>p \<in> set ps. p \<noteq> [])
      \<and> (start (scan line st n) = 0 \<or> start (scan line st n) < n)"
proof (induction n)
  case 0
  have "processed_line (scan line st 0) = map (\<lambda>p. p @ [newline]) []"
    "concat [] = take (start (scan line st 0)) line"
    "\<forall>p \<in> set ([] :: string list). p \<noteq> []"
    "start (scan line st 0) = 0 \<or> start (scan line st 0) < 0"
    by (simp_all add: scan_0 init_locals_def)
  then show ?case
    by blast
next
  case (Suc n)
  let ?v = "scan line st n"
  let ?v' = "scan line st (Suc n)"
  from Suc.prems have "n \<le> length line" by simp
  from Suc.IH [OF this] obtain ps where ps:
    "processed_line ?v = map (\<lambda>p. p @ [newline]) ps"
    "concat ps = take (start ?v) line"
    "\<forall>p \<in> set ps. p \<noteq> []"
    "start ?v = 0 \<or> start ?v < n"
    by blast
  from Suc.prems have n: "n < length line" by simp
  show ?case
  proof (cases "line ! n = lparen \<and> \<not> in_quotes ?v \<and> brackets ?v = 0")
    case False
    then have "processed_line ?v' = processed_line ?v" and "start ?v' = start ?v"
      by (auto simp add: scan_Suc loop_body_processed_line loop_body_start)
    then have "processed_line ?v' = map (\<lambda>p. p @ [newline]) ps"
      "concat ps = take (start ?v') line"
      "start ?v' = 0 \<or> start ?v' < Suc n"
      using ps(1,2,4) by auto
    with ps(3) show ?thesis
      by blast
  next
    case split: True
    show ?thesis
    proof (cases "0 < n")
      case False
      with split have "processed_line ?v' = processed_line ?v" and "start ?v' = 0"
        by (auto simp add: scan_Suc loop_body_processed_line loop_body_start)
      moreover from False ps(4) have "start ?v = 0" by simp
      ultimately have "processed_line ?v' = map (\<lambda>p. p @ [newline]) ps"
        "concat ps = take (start ?v') line"
        "start ?v' = 0 \<or> start ?v' < Suc n"
        using ps(1,2) by simp_all
      with ps(3) show ?thesis
        by blast
    next
      case True
      let ?p = "slice line (start ?v) n"
      from True ps(4) have lt: "start ?v < n" by auto
      from split True have
        pl': "processed_line ?v' = processed_line ?v @ [?p @ [newline]]"
        and st': "start ?v' = n"
        by (auto simp add: scan_Suc loop_body_processed_line loop_body_start)
      have "processed_line ?v' = map (\<lambda>p. p @ [newline]) (ps @ [?p])"
        using ps(1) pl' by simp
      moreover have "concat (ps @ [?p]) = take (start ?v') line"
        using ps(2) lt slice_extend [of "start ?v" n line] st' by simp
      moreover have "\<forall>p \<in> set (ps @ [?p]). p \<noteq> []"
        using ps(3) slice_nonempty [OF lt n] by simp
      moreover have "start ?v' = 0 \<or> start ?v' < Suc n"
        using st' by simp
      ultimately show ?thesis
        by blast
    qed
  qed
qed


lemma process_line_fst:
  "fst (process_line line st) =
     processed_line (scan line st (length line)) @ [drop (start (scan line st (length line))) line]"
  by (simp add: process_line_def Let_def)

lemma process_line_pieces:
  "\<exists>ps. ps \<noteq> [] \<and> concat ps = line
      \<and> (line \<noteq> [] \<longrightarrow> (\<forall>p \<in> set ps. p \<noteq> []))
      \<and> fst (process_line line st) = map (\<lambda>p. p @ [newline]) (butlast ps) @ [last ps]"
proof -
  let ?v = "scan line st (length line)"
  from scan_pieces [of "length line" line st] obtain qs where qs:
    "processed_line ?v = map (\<lambda>p. p @ [newline]) qs"
    "concat qs = take (start ?v) line"
    "\<forall>p \<in> set qs. p \<noteq> []"
    "start ?v = 0 \<or> start ?v < length line"
    by blast
  let ?ps = "qs @ [drop (start ?v) line]"
  have "?ps \<noteq> []"
    by simp
  moreover have "concat ?ps = line"
    using qs(2) by simp
  moreover have "line \<noteq> [] \<longrightarrow> (\<forall>p \<in> set ?ps. p \<noteq> [])"
    using qs(3,4) by auto
  moreover have "fst (process_line line st) = map (\<lambda>p. p @ [newline]) (butlast ?ps) @ [last ?ps]"
    using qs(1) by (simp add: process_line_fst)
  ultimately show ?thesis
    by blast
qed

lemma process_line_state:
  "fst (snd (process_line line st)) =
     \<lparr>in_quotes = in_quotes (scan line st (length line)),
      brackets = brackets (scan line st (length line))\<rparr>"
  by (simp add: process_line_def Let_def)

lemma process_line_printed:
  "snd (snd (process_line line st)) = printed (scan line st (length line))"
  by (simp add: process_line_def Let_def)

lemma loop_body_brackets_nonneg:
  "0 \<le> brackets v \<Longrightarrow> 0 \<le> brackets (loop_body line i v)"
  by (simp add: loop_body_brackets)

lemma scan_brackets_nonneg:
  "0 \<le> brackets st \<Longrightarrow> 0 \<le> brackets (scan line st n)"
proof (induction n)
  case 0
  then show ?case
    by (simp add: scan_0 init_locals_def)
next
  case (Suc n)
  then show ?case
    by (simp add: scan_Suc loop_body_brackets_nonneg)
qed

lemma process_line_brackets_nonneg:
  "0 \<le> brackets st \<Longrightarrow> 0 \<le> brackets (fst (snd (process_line line st)))"
  by (simp add: process_line_state scan_brackets_nonneg)

lemma scan_no_split:
  assumes "\<forall>i \<in> {1..<length line}.
      \<not> (brackets (scan line st i) = 0 \<and> brackets (scan line st (Suc i)) = 1)"
  shows "n \<le> length line \<Longrightarrow>
    processed_line (scan line st n) = [] \<and> start (scan line st n) = 0"
proof (induction n)
  case 0
  show ?case
    by (simp add: scan_0 init_locals_def)
next
  case (Suc n)
  let ?v = "scan line st n"
  from Suc have IH: "processed_line ?v = []" "start ?v = 0"
    by simp_all
  show ?case
  proof (cases "line ! n = lparen \<and> \<not> in_quotes ?v \<and> brackets ?v = 0")
    case False
    then show ?thesis
      using IH by (auto simp add: scan_Suc loop_body_processed_line loop_body_start)
  next
    case split: True
    then have up: "brackets ?v = 0 \<and> brackets (scan line st (Suc n)) = 1"
      by (simp add: scan_Suc loop_body_brackets)
    have "n = 0"
    proof (rule ccontr)
      assume "n \<noteq> 0"
      with Suc.prems have "n \<in> {1..<length line}"
        by simp
      with assms up show False
        by blast
    qed
    with split IH show ?thesis
      by (simp add: scan_Suc loop_body_processed_line loop_body_start)
  qed
qed

lemma brackets_up_lparen:
  "brackets (loop_body line i v) = brackets v + 1 \<Longrightarrow> line ! i = lparen \<and> \<not> in_quotes v"
  by (simp add: loop_body_brackets split: if_splits)

lemma process_line_no_lparen:
  assumes "lparen \<notin> set line"
  shows "fst (process_line line st) = [line]"
proof -
  have "\<forall>i \<in> {1..<length line}.
      \<not> (brackets (scan line st i) = 0 \<and> brackets (scan line st (Suc i)) = 1)"
  proof (intro ballI notI)
    fix i
    assume i: "i \<in> {1..<length line}"
      and "brackets (scan line st i) = 0 \<and> brackets (scan line st (Suc i)) = 1"
    then have "brackets (loop_body line i (scan line st i)) = brackets (scan line st i) + 1"
      by (simp add: scan_Suc)
    then have "line ! i = lparen"
      using brackets_up_lparen by blast
    moreover from i have "line ! i \<in> set line"
      by simp
    ultimately show False
      using assms by simp
  qed
  from scan_no_split [OF this, of "length line"] show ?thesis
    by (simp add: process_line_fst)
qed

section \<open>The loop of \<^verbatim>\<open>process_file\<close>, one line at a time\<close>

lemma file_body_temp_state:
  "temp_state (file_body c w line) =
     (if length line = 1 \<or> take 2 line = ''--'' then temp_state w
      else fst (snd (process_line line (temp_state w))))"
  by (simp add: file_body_def Let_def split: prod.split)

lemma file_body_output_lines:
  "output_lines (file_body c w line) =
     (if length line = 1 \<or> take 2 line = ''--'' then output_lines w @ [line]
      else output_lines w @ fst (process_line line (temp_state w)))"
  by (simp add: file_body_def Let_def split: prod.split)

lemma file_body_brackets_nonneg:
  "0 \<le> brackets (temp_state w) \<Longrightarrow> 0 \<le> brackets (temp_state (file_body c w line))"
  by (simp add: file_body_temp_state process_line_brackets_nonneg)

lemma file_loop_brackets_nonneg:
  "0 \<le> brackets (temp_state w) \<Longrightarrow> 0 \<le> brackets (temp_state (file_loop c w lines))"
proof (induction lines arbitrary: w)
  case Nil
  then show ?case
    by (simp add: file_loop_def)
next
  case (Cons line lines)
  from Cons.prems have "0 \<le> brackets (temp_state (file_body c w line))"
    by (rule file_body_brackets_nonneg)
  then have "0 \<le> brackets (temp_state (file_loop c (file_body c w line) lines))"
    by (rule Cons.IH)
  then show ?case
    by (simp add: file_loop_def)
qed

lemma file_body_processed:
  "length line \<noteq> 1 \<Longrightarrow> take 2 line \<noteq> ''--'' \<Longrightarrow>
   temp_state (file_body c w line) = fst (snd (process_line line (temp_state w)))
   \<and> output_lines (file_body c w line) = output_lines w @ fst (process_line line (temp_state w))"
  by (simp add: file_body_temp_state file_body_output_lines)

section \<open>Properties of \<^verbatim>\<open>process_line\<close>\<close>

text \<open>
  C1 (round trip).  For every line and every incoming state, take the fragments that
  \<^verbatim>\<open>process_line\<close> returns, strip the last character (the appended newline) from every
  fragment but the last, and concatenate them in order: the result is the line itself.
\<close>

theorem process_line_round_trip:
  "concat (map butlast (butlast (fst (process_line line st))))
     @ last (fst (process_line line st)) = line"
proof -
  from process_line_pieces [of line st] obtain ps where ps:
    "ps \<noteq> []" "concat ps = line"
    "fst (process_line line st) = map (\<lambda>p. p @ [newline]) (butlast ps) @ [last ps]"
    by blast
  have "map butlast (butlast (fst (process_line line st))) = butlast ps"
    unfolding ps(3) by (simp add: comp_def)
  moreover have "last (fst (process_line line st)) = last ps"
    unfolding ps(3) by simp
  moreover have "concat (butlast ps) @ last ps = concat (butlast ps @ [last ps])"
    by simp
  moreover have "butlast ps @ [last ps] = ps"
    using ps(1) by simp
  ultimately show ?thesis
    using ps(2) by metis
qed

text \<open>
  C2 (cross-line quote carry), as stated, fails.  Line 1 is quote, a, b, c and leaves the
  state with the quote open and no bracket open.  In line 2, \<open>def'(x)\<close>, the quote at
  index 3 closes the string before the bracket at index 4 is read, so the bracket is
  outside quotes and the line is split there: the conjunction of "state \<open>{true, 0}\<close> after
  line 1", "single fragment for line 2" and "final state \<open>{false, 0}\<close>" is false.
\<close>

theorem cross_line_quote_carry_counterexample:
  "\<not> (fst (snd (process_line [quote, CHR ''a'', CHR ''b'', CHR ''c'']
                 \<lparr>in_quotes = False, brackets = 0\<rparr>)) = \<lparr>in_quotes = True, brackets = 0\<rparr>
      \<and> fst (process_line ''def'(x)'' \<lparr>in_quotes = True, brackets = 0\<rparr>) = [''def'(x)'']
      \<and> fst (snd (process_line ''def'(x)'' \<lparr>in_quotes = True, brackets = 0\<rparr>))
           = \<lparr>in_quotes = False, brackets = 0\<rparr>)"
  by code_simp

text \<open>
  C2, amended.  Processing line 1 (quote, a, b, c) from \<open>{false, 0}\<close> ends with state
  \<open>{true, 0}\<close>.  Processing line 2 = \<open>def'(x)\<close> from that state: after the quote at index 3
  the quote flag is off, the line is split before the bracket at index 4 into the two
  fragments \<open>def'\<close> (with appended newline) and \<open>(x)\<close>, and the final state is \<open>{false, 0}\<close>.
\<close>

theorem cross_line_quote_carry:
  "fst (snd (process_line [quote, CHR ''a'', CHR ''b'', CHR ''c'']
                 \<lparr>in_quotes = False, brackets = 0\<rparr>)) = \<lparr>in_quotes = True, brackets = 0\<rparr>
   \<and> in_quotes (scan ''def'(x)'' \<lparr>in_quotes = True, brackets = 0\<rparr> 4) = False
   \<and> fst (process_line ''def'(x)'' \<lparr>in_quotes = True, brackets = 0\<rparr>)
        = [''def'' @ [quote, newline], ''(x)'']
   \<and> fst (snd (process_line ''def'(x)'' \<lparr>in_quotes = True, brackets = 0\<rparr>))
        = \<lparr>in_quotes = False, brackets = 0\<rparr>"
  by code_simp

text \<open>
  C4 (quote-aware split suppression).  An opening bracket read while the quote flag is
  set appends no fragment and does not move \<open>start\<close>; and the line \<open>a'(b'c(d)\<close> from
  \<open>{false, 0}\<close> gives exactly the two fragments \<open>a'(b'c\<close> (with appended newline) and
  \<open>(d)\<close>, the split being before the bracket at index 6.
\<close>

theorem quoted_lparen_no_split:
  "(line ! i = lparen \<and> in_quotes v \<longrightarrow>
      processed_line (loop_body line i v) = processed_line v
      \<and> start (loop_body line i v) = start v)
   \<and> process_line ''a'(b'c(d)'' \<lparr>in_quotes = False, brackets = 0\<rparr>
       = ([''a'(b'c'' @ [newline], ''(d)''], \<lparr>in_quotes = False, brackets = 0\<rparr>, [])"
proof (rule conjI)
  show "line ! i = lparen \<and> in_quotes v \<longrightarrow>
      processed_line (loop_body line i v) = processed_line v
      \<and> start (loop_body line i v) = start v"
    by (simp add: loop_body_processed_line loop_body_start)
  show "process_line ''a'(b'c(d)'' \<lparr>in_quotes = False, brackets = 0\<rparr>
       = ([''a'(b'c'' @ [newline], ''(d)''], \<lparr>in_quotes = False, brackets = 0\<rparr>, [])"
    by code_simp
qed

theorem quoted_lparen_no_split_witness:
  "(''a'(b'c(d)'' ! 2 = lparen
      \<and> in_quotes (scan ''a'(b'c(d)'' \<lparr>in_quotes = False, brackets = 0\<rparr> 2))
   \<and> processed_line (loop_body ''a'(b'c(d)'' 2
          (scan ''a'(b'c(d)'' \<lparr>in_quotes = False, brackets = 0\<rparr> 2))
       = processed_line (scan ''a'(b'c(d)'' \<lparr>in_quotes = False, brackets = 0\<rparr> 2)
   \<and> start (loop_body ''a'(b'c(d)'' 2
          (scan ''a'(b'c(d)'' \<lparr>in_quotes = False, brackets = 0\<rparr> 2))
       = start (scan ''a'(b'c(d)'' \<lparr>in_quotes = False, brackets = 0\<rparr> 2)"
proof -
  have h: "''a'(b'c(d)'' ! 2 = lparen
      \<and> in_quotes (scan ''a'(b'c(d)'' \<lparr>in_quotes = False, brackets = 0\<rparr> 2)"
    by code_simp
  with quoted_lparen_no_split [of "''a'(b'c(d)''" 2
      "scan ''a'(b'c(d)'' \<lparr>in_quotes = False, brackets = 0\<rparr> 2"]
  show ?thesis
    by blast
qed

text \<open>
  C5 (unbalanced closing bracket).  A closing bracket read outside quotes while
  \<open>brackets\<close> is 0 leaves \<open>brackets\<close> at 0 and prints the warning and the line; the scan is
  a total function, so it goes on with the next index.  For the line \<open>)(\<close> from
  \<open>{false, 0}\<close> the warning is printed, the line is split before the opening bracket, and
  the final number of open brackets is 1.
\<close>

theorem unbalanced_close_nonfatal:
  "(line ! i = rparen \<and> \<not> in_quotes v \<and> brackets v = 0 \<longrightarrow>
      brackets (loop_body line i v) = 0
      \<and> printed (loop_body line i v) = printed v @ [warning, line])
   \<and> process_line [rparen, lparen] \<lparr>in_quotes = False, brackets = 0\<rparr>
       = ([[rparen, newline], [lparen]], \<lparr>in_quotes = False, brackets = 1\<rparr>,
          [warning, [rparen, lparen]])"
proof (rule conjI)
  show "line ! i = rparen \<and> \<not> in_quotes v \<and> brackets v = 0 \<longrightarrow>
      brackets (loop_body line i v) = 0
      \<and> printed (loop_body line i v) = printed v @ [warning, line]"
    by (simp add: loop_body_brackets loop_body_printed)
  show "process_line [rparen, lparen] \<lparr>in_quotes = False, brackets = 0\<rparr>
       = ([[rparen, newline], [lparen]], \<lparr>in_quotes = False, brackets = 1\<rparr>,
          [warning, [rparen, lparen]])"
    by code_simp
qed

theorem unbalanced_close_nonfatal_witness:
  "([rparen, lparen] ! 0 = rparen
      \<and> \<not> in_quotes (init_locals \<lparr>in_quotes = False, brackets = 0\<rparr>)
      \<and> brackets (init_locals \<lparr>in_quotes = False, brackets = 0\<rparr>) = 0)
   \<and> brackets (loop_body [rparen, lparen] 0
        (init_locals \<lparr>in_quotes = False, brackets = 0\<rparr>)) = 0
   \<and> printed (loop_body [rparen, lparen] 0
        (init_locals \<lparr>in_quotes = False, brackets = 0\<rparr>))
       = printed (init_locals \<lparr>in_quotes = False, brackets = 0\<rparr>)
           @ [warning, [rparen, lparen]]"
proof -
  have h: "[rparen, lparen] ! 0 = rparen
      \<and> \<not> in_quotes (init_locals \<lparr>in_quotes = False, brackets = 0\<rparr>)
      \<and> brackets (init_locals \<lparr>in_quotes = False, brackets = 0\<rparr>) = 0"
    by (simp add: init_locals_def)
  with unbalanced_close_nonfatal [of "[rparen, lparen]" 0
      "init_locals \<lparr>in_quotes = False, brackets = 0\<rparr>"]
  show ?thesis
    by blast
qed

text \<open>
  C6 (the number of open brackets is never negative).  From a state with
  \<open>0 \<le> brackets\<close>, \<open>brackets\<close> is non-negative after every index of the scan and in the
  state that \<^verbatim>\<open>process_line\<close> returns; a closing bracket read while \<open>brackets\<close> is 0
  leaves it at 0; and the state that \<^verbatim>\<open>process_file\<close> threads through any list of
  lines keeps \<open>0 \<le> brackets\<close>.
\<close>

theorem brackets_nonneg:
  "(0 \<le> brackets st \<longrightarrow> 0 \<le> brackets (scan line st n))
   \<and> (0 \<le> brackets st \<longrightarrow> 0 \<le> brackets (fst (snd (process_line line st))))
   \<and> (line ! i = rparen \<and> brackets v = 0 \<longrightarrow> brackets (loop_body line i v) = 0)
   \<and> (0 \<le> brackets (temp_state w) \<longrightarrow> 0 \<le> brackets (temp_state (file_loop c w lines)))"
proof (intro conjI impI)
  assume "line ! i = rparen \<and> brackets v = 0"
  then show "brackets (loop_body line i v) = 0"
    by (simp add: loop_body_brackets)
qed (simp_all add: scan_brackets_nonneg process_line_brackets_nonneg file_loop_brackets_nonneg)

theorem brackets_nonneg_witness:
  "(0 \<le> brackets \<lparr>in_quotes = False, brackets = 0\<rparr>
      \<and> 0 \<le> brackets (scan [rparen, lparen] \<lparr>in_quotes = False, brackets = 0\<rparr> 1))
   \<and> (0 \<le> brackets \<lparr>in_quotes = False, brackets = 0\<rparr>
      \<and> 0 \<le> brackets (fst (snd (process_line [rparen, lparen] \<lparr>in_quotes = False, brackets = 0\<rparr>))))
   \<and> ([rparen, lparen] ! 0 = rparen
      \<and> brackets (init_locals \<lparr>in_quotes = False, brackets = 0\<rparr>) = 0
      \<and> brackets (loop_body [rparen, lparen] 0 (init_locals \<lparr>in_quotes = False, brackets = 0\<rparr>)) = 0)
   \<and> (0 \<le> brackets (temp_state \<lparr>line_number = 0, output_lines = [],
                                   temp_state = \<lparr>in_quotes = False, brackets = 0\<rparr>, console = []\<rparr>)
      \<and> 0 \<le> brackets (temp_state (file_loop ''2''
             \<lparr>line_number = 0, output_lines = [],
              temp_state = \<lparr>in_quotes = False, brackets = 0\<rparr>, console = []\<rparr>
             [[rparen, rparen, newline], [lparen, rparen, rparen, newline]])))"
  using brackets_nonneg [of "\<lparr>in_quotes = False, brackets = 0\<rparr>" "[rparen, lparen]" 1 0
      "init_locals \<lparr>in_quotes = False, brackets = 0\<rparr>"
      "\<lparr>line_number = 0, output_lines = [],
        temp_state = \<lparr>in_quotes = False, brackets = 0\<rparr>, console = []\<rparr>"
      "''2''" "[[rparen, rparen, newline], [lparen, rparen, rparen, newline]]"]
  by (simp add: init_locals_def)

text \<open>
  C7 (escape handling).  For the line backslash, quote, opening bracket from
  \<open>{false, 0}\<close>: the backslash sets \<open>escaped\<close>; the quote clears it and does not toggle the
  quote flag; the bracket is then read outside quotes with no bracket open, so the line
  is split before it into the fragments backslash, quote (with appended newline) and the
  bracket.
\<close>

theorem escaped_quote_then_split:
  "escaped (scan [backslash, quote, lparen] \<lparr>in_quotes = False, brackets = 0\<rparr> 1)
   \<and> \<not> in_quotes (scan [backslash, quote, lparen] \<lparr>in_quotes = False, brackets = 0\<rparr> 2)
   \<and> \<not> escaped (scan [backslash, quote, lparen] \<lparr>in_quotes = False, brackets = 0\<rparr> 2)
   \<and> brackets (scan [backslash, quote, lparen] \<lparr>in_quotes = False, brackets = 0\<rparr> 2) = 0
   \<and> process_line [backslash, quote, lparen] \<lparr>in_quotes = False, brackets = 0\<rparr>
       = ([[backslash, quote, newline], [lparen]], \<lparr>in_quotes = False, brackets = 1\<rparr>, [])"
  by code_simp

text \<open>
  C9 (a line without split point).  If at no index greater than 0 the number of open
  brackets goes from 0 to 1, \<^verbatim>\<open>process_line\<close> returns exactly one fragment, the line
  itself.
\<close>

theorem no_transition_single_fragment:
  assumes "\<forall>i \<in> {1..<length line}.
      \<not> (brackets (scan line st i) = 0 \<and> brackets (scan line st (Suc i)) = 1)"
  shows "fst (process_line line st) = [line]"
  using scan_no_split [OF assms, of "length line"]
  by (simp add: process_line_fst)

theorem no_transition_single_fragment_witness:
  "list_all
     (\<lambda>i. \<not> (brackets (scan ''(a(b))c'' \<lparr>in_quotes = False, brackets = 0\<rparr> i) = 0
         \<and> brackets (scan ''(a(b))c'' \<lparr>in_quotes = False, brackets = 0\<rparr> (Suc i)) = 1))
     [1..<length ''(a(b))c'']
   \<and> fst (process_line ''(a(b))c'' \<lparr>in_quotes = False, brackets = 0\<rparr>) = [''(a(b))c'']"
proof -
  have h: "\<forall>i \<in> {1..<length ''(a(b))c''}.
      \<not> (brackets (scan ''(a(b))c'' \<lparr>in_quotes = False, brackets = 0\<rparr> i) = 0
         \<and> brackets (scan ''(a(b))c'' \<lparr>in_quotes = False, brackets = 0\<rparr> (Suc i)) = 1)"
    by code_simp
  then have l: "list_all
     (\<lambda>i. \<not> (brackets (scan ''(a(b))c'' \<lparr>in_quotes = False, brackets = 0\<rparr> i) = 0
         \<and> brackets (scan ''(a(b))c'' \<lparr>in_quotes = False, brackets = 0\<rparr> (Suc i)) = 1))
     [1..<length ''(a(b))c'']"
    unfolding list_all_iff by simp
  from l no_transition_single_fragment [OF h] show ?thesis
    by (rule conjI)
qed

text \<open>
  C10 (shape of the fragments).  For a non-empty line, \<^verbatim>\<open>process_line\<close> returns at least
  one fragment and every fragment is non-empty.  The line is the concatenation of
  non-empty pieces \<open>ps\<close>; every fragment but the last is one piece followed by exactly
  one appended newline, and the last fragment is the last piece, with nothing appended.
\<close>

theorem process_line_fragments_shape:
  assumes "line \<noteq> []"
  shows "fst (process_line line st) \<noteq> []
    \<and> (\<forall>f \<in> set (fst (process_line line st)). f \<noteq> [])
    \<and> (\<exists>ps. ps \<noteq> [] \<and> concat ps = line \<and> (\<forall>p \<in> set ps. p \<noteq> [])
          \<and> fst (process_line line st) = map (\<lambda>p. p @ [newline]) (butlast ps) @ [last ps])"
proof -
  from process_line_pieces [of line st] assms obtain ps where ps:
    "ps \<noteq> []" "concat ps = line" "\<forall>p \<in> set ps. p \<noteq> []"
    "fst (process_line line st) = map (\<lambda>p. p @ [newline]) (butlast ps) @ [last ps]"
    by blast
  have "fst (process_line line st) \<noteq> []"
    unfolding ps(4) by simp
  moreover have "\<forall>f \<in> set (fst (process_line line st)). f \<noteq> []"
    unfolding ps(4) using ps(1,3) by auto
  ultimately show ?thesis
    using ps by blast
qed

theorem process_line_fragments_shape_witness:
  "''a(b),(c)'' \<noteq> []
   \<and> fst (process_line ''a(b),(c)'' \<lparr>in_quotes = False, brackets = 0\<rparr>) \<noteq> []
   \<and> [] \<notin> set (fst (process_line ''a(b),(c)'' \<lparr>in_quotes = False, brackets = 0\<rparr>))
   \<and> (\<exists>ps. ps \<noteq> [] \<and> concat ps = ''a(b),(c)'' \<and> (\<forall>p \<in> set ps. p \<noteq> [])
          \<and> fst (process_line ''a(b),(c)'' \<lparr>in_quotes = False, brackets = 0\<rparr>)
              = map (\<lambda>p. p @ [newline]) (butlast ps) @ [last ps])"
proof -
  have h: "''a(b),(c)'' \<noteq> []"
    by simp
  note t = process_line_fragments_shape [OF h, of "\<lparr>in_quotes = False, brackets = 0\<rparr>"]
  from t have "[] \<notin> set (fst (process_line ''a(b),(c)'' \<lparr>in_quotes = False, brackets = 0\<rparr>))"
    by blast
  with h t show ?thesis
    by blast
qed

section \<open>Properties of \<^verbatim>\<open>process_file\<close>\<close>

text \<open>
  C3 (every line that is neither a lone line terminator nor a comment is processed)
  does not hold of the code: the test \<^verbatim>\<open>len(line) == 1\<close> passes every line of one
  character through, not only the line that is a lone newline.  A file whose last line
  is a single opening bracket without line terminator is written back with the state
  left at \<open>{false, 0}\<close>, where \<^verbatim>\<open>process_line\<close> on that line returns \<open>{false, 1}\<close>; a
  last line that is a single closing bracket is passed through without the warning
  that \<^verbatim>\<open>process_line\<close> prints for it.
\<close>

theorem one_char_line_not_processed:
  "process_file ''in.sql'' ''out.sql'' [[lparen]]
     = ([[lparen]], \<lparr>in_quotes = False, brackets = 0\<rparr>,
        [''Processing file: in.sql...'', ''Done! Input lines: 1, output lines: 1'',
         ''Saving file...'', ''Done. Output file out.sql ready.''])
   \<and> process_line [lparen] \<lparr>in_quotes = False, brackets = 0\<rparr>
     = ([[lparen]], \<lparr>in_quotes = False, brackets = 1\<rparr>, [])
   \<and> process_file ''in.sql'' ''out.sql'' [[rparen]]
     = ([[rparen]], \<lparr>in_quotes = False, brackets = 0\<rparr>,
        [''Processing file: in.sql...'', ''Done! Input lines: 1, output lines: 1'',
         ''Saving file...'', ''Done. Output file out.sql ready.''])
   \<and> process_line [rparen] \<lparr>in_quotes = False, brackets = 0\<rparr>
     = ([[rparen]], \<lparr>in_quotes = False, brackets = 0\<rparr>, [warning, [rparen]])"
  by code_simp

text \<open>
  C8 (skipped lines leave the state unchanged).  For a line that is a lone newline or
  whose first two characters are \<open>--\<close>, the loop body of \<^verbatim>\<open>process_file\<close> leaves
  \<open>temp_state\<close> as it was, whatever it was, and appends the line itself to the output.
\<close>

theorem skipped_line_state_unchanged:
  "line = [newline] \<or> take 2 line = ''--'' \<Longrightarrow>
   temp_state (file_body c w line) = temp_state w
   \<and> output_lines (file_body c w line) = output_lines w @ [line]"
  by (auto simp add: file_body_temp_state file_body_output_lines)

theorem skipped_line_state_unchanged_witness:
  "(take 2 (''-- note'' @ [newline]) = ''--''
    \<and> temp_state (file_body ''3''
          \<lparr>line_number = 1, output_lines = [[quote, CHR ''a'', newline]],
           temp_state = \<lparr>in_quotes = True, brackets = 0\<rparr>, console = []\<rparr>
          (''-- note'' @ [newline])) = \<lparr>in_quotes = True, brackets = 0\<rparr>)
   \<and> temp_state (file_body ''3''
          \<lparr>line_number = 1, output_lines = [[quote, CHR ''a'', newline]],
           temp_state = \<lparr>in_quotes = True, brackets = 2\<rparr>, console = []\<rparr>
          [newline]) = \<lparr>in_quotes = True, brackets = 2\<rparr>"
  using
    skipped_line_state_unchanged [of "''-- note'' @ [newline]" "''3''"
      "\<lparr>line_number = 1, output_lines = [[quote, CHR ''a'', newline]],
        temp_state = \<lparr>in_quotes = True, brackets = 0\<rparr>, console = []\<rparr>"]
    skipped_line_state_unchanged [of "[newline]" "''3''"
      "\<lparr>line_number = 1, output_lines = [[quote, CHR ''a'', newline]],
        temp_state = \<lparr>in_quotes = True, brackets = 2\<rparr>, console = []\<rparr>"]
  by simp

end
